theory Spec2Isabelle
  imports Main "HOL-Library.Sublist"
begin

section \<open>The JSON wrapper around the symbolic prediction engine\<close>

text \<open>
  A shallow embedding of \<^verbatim>\<open>full_data_wrapper.py\<close>: the two translators
  (\<^verbatim>\<open>dataframe_to_json\<close>, \<^verbatim>\<open>graph_to_json\<close>), the query interceptor
  (\<^verbatim>\<open>capture_sparql_queries\<close>) and the run (\<^verbatim>\<open>main\<close>).
  The libraries the script calls (pandas, rdflib, json, tempfile, os) and the engine
  module \<^verbatim>\<open>Symbolic_predictions\<close> are not part of the file; what the script
  observes of them is modelled as data (a table, a graph) or taken as a parameter
  (the engine's three entry points, a graph's own query method).
\<close>

subsection \<open>Python values and dictionaries\<close>

text \<open>
  A scalar held in a table cell. \<open>VObj\<close> stands for any Python object the
  \<^verbatim>\<open>json\<close> module has no encoding for (a numpy scalar, a pandas Series, ...).
\<close>

datatype pyval = VNone | VBool bool | VInt int | VStr string | VObj string

text \<open>
  A Python dict with string keys: an association list in insertion order with one entry
  per key. Assigning to a key that is present replaces the value in place.
\<close>

type_synonym 'v dict = "(string \<times> 'v) list"

fun dict_set :: "string \<Rightarrow> 'v \<Rightarrow> 'v dict \<Rightarrow> 'v dict" where
  "dict_set k v [] = [(k, v)]"
| "dict_set k v ((k', v') # d) =
     (if k = k' then (k, v) # d else (k', v') # dict_set k v d)"

definition dict_of :: "(string \<times> 'v) list \<Rightarrow> 'v dict" where
  "dict_of ps = foldl (\<lambda>d (k, v). dict_set k v d) [] ps"

definition keys :: "'v dict \<Rightarrow> string list" where
  "keys d = map fst d"

subsection \<open>Tables (pandas DataFrame)\<close>

text \<open>
  What the script reads of a DataFrame: the column labels in order, the dtype of every
  column as pandas prints it, and the rows, each holding one cell per column.
  \<open>wf_dataframe\<close> is the rectangular shape every DataFrame has.
\<close>

record dataframe =
  df_columns :: "string list"
  df_dtypes :: "string list"
  df_rows :: "pyval list list"


text \<open>\<^verbatim>\<open>df.empty\<close>: some axis has length zero.\<close>

definition df_empty :: "dataframe \<Rightarrow> bool" where
  "df_empty df \<longleftrightarrow> df_rows df = [] \<or> df_columns df = []"


text \<open>\<^verbatim>\<open>df.to_dict('records')\<close>: one dict per row, keyed by the column labels.\<close>

definition to_dict_records :: "dataframe \<Rightarrow> pyval dict list" where
  "to_dict_records df = map (\<lambda>r. dict_of (zip (df_columns df) r)) (df_rows df)"

text \<open>\<^verbatim>\<open>df.dtypes.astype(str).to_dict()\<close>.\<close>

definition dtypes_to_dict :: "dataframe \<Rightarrow> string dict" where
  "dtypes_to_dict df = dict_of (zip (df_columns df) (df_dtypes df))"

text \<open>The dict \<^verbatim>\<open>dataframe_to_json\<close> returns; the key \<open>dtypes\<close> may be absent.\<close>

record table_json =
  columns :: "string list"
  data :: "pyval dict list"
  shape :: "nat list"
  dtypes :: "string dict option"

fun dataframe_to_json :: "dataframe option \<Rightarrow> table_json" where
  "dataframe_to_json None =
     \<lparr>columns = [], data = [], shape = [0, 0], dtypes = None\<rparr>"
| "dataframe_to_json (Some df) =
     (if df_empty df
      then \<lparr>columns = [], data = [], shape = [0, 0], dtypes = None\<rparr>
      else \<lparr>columns = df_columns df,
            data = to_dict_records df,
            shape = [length (df_rows df), length (df_columns df)],
            dtypes = Some (dtypes_to_dict df)\<rparr>)"

subsection \<open>Graphs (rdflib Graph)\<close>

text \<open>
  The three kinds of rdflib term. Only a \<open>Literal\<close> has the attributes
  \<^verbatim>\<open>datatype\<close> and \<^verbatim>\<open>language\<close>, and it has them whether or not they are
  set: on a plain literal both are \<^verbatim>\<open>None\<close>.
\<close>

datatype rdf_term =
    is_URIRef: URIRef string
  | is_BNode: BNode string
  | is_Literal: Literal (lexical: string) (lit_datatype: "string option") (lit_language: "string option")

text \<open>\<^verbatim>\<open>str(term)\<close>.\<close>

fun str_term :: "rdf_term \<Rightarrow> string" where
  "str_term (URIRef u) = u"
| "str_term (BNode b) = b"
| "str_term (Literal l dt lang) = l"

text \<open>\<^verbatim>\<open>hasattr(o, 'datatype')\<close>.\<close>

fun hasattr_datatype :: "rdf_term \<Rightarrow> bool" where
  "hasattr_datatype (Literal l dt lang) = True"
| "hasattr_datatype (URIRef u) = False"
| "hasattr_datatype (BNode b) = False"

text \<open>
  The reading of the specification's words "the object term carries a datatype or
  language tag": one of the two is set.
\<close>

fun carries_datatype_or_language :: "rdf_term \<Rightarrow> bool" where
  "carries_datatype_or_language (Literal l dt lang) = (dt \<noteq> None \<or> lang \<noteq> None)"
| "carries_datatype_or_language (URIRef u) = False"
| "carries_datatype_or_language (BNode b) = False"

text \<open>
  What the script reads of a graph: the triples in the order \<^verbatim>\<open>for s, p, o in graph\<close>
  yields them, and the prefix bindings in the order \<^verbatim>\<open>graph.namespaces()\<close> yields them.
  \<^verbatim>\<open>len(graph)\<close> is the number of triples.
\<close>

type_synonym rdf_triple = "rdf_term \<times> rdf_term \<times> rdf_term"

record rdf_graph =
  graph_triples :: "rdf_triple list"
  graph_namespaces :: "(string \<times> string) list"

definition len_graph :: "rdf_graph \<Rightarrow> nat" where
  "len_graph g = length (graph_triples g)"

record 'v spo =
  subject :: 'v
  predicate :: 'v
  object :: 'v

record triple_json = "string spo" +
  object_type :: string

record graph_json =
  triples :: "triple_json list"
  total_triples :: nat
  namespaces :: "string dict"
  limited_to :: "int option"

text \<open>The dict appended for one triple.\<close>

fun triple_entry :: "rdf_triple \<Rightarrow> triple_json" where
  "triple_entry (s, p, o') =
     \<lparr>subject = str_term s, predicate = str_term p, object = str_term o',
      object_type = (if hasattr_datatype o' then ''literal'' else ''uri'')\<rparr>"

text \<open>
  The truth value of \<^verbatim>\<open>limit\<close>, which is \<^verbatim>\<open>None\<close> or an integer:
  \<^verbatim>\<open>None\<close> and \<open>0\<close> are false.
\<close>

fun truthy :: "int option \<Rightarrow> bool" where
  "truthy None = False"
| "truthy (Some n) = (n \<noteq> 0)"

text \<open>\<^verbatim>\<open>limit and count >= limit\<close>.\<close>

fun limit_reached :: "int option \<Rightarrow> int \<Rightarrow> bool" where
  "limit_reached None count = False"
| "limit_reached (Some n) count = (n \<noteq> 0 \<and> count \<ge> n)"

text \<open>The loop over the graph, with the list built so far and the counter.\<close>

fun collect_triples :: "int option \<Rightarrow> rdf_triple list \<Rightarrow> triple_json list \<Rightarrow> int \<Rightarrow> triple_json list" where
  "collect_triples limit [] acc count = acc"
| "collect_triples limit (t # rest) acc count =
     (let acc' = acc @ [triple_entry t]; count' = count + 1
      in if limit_reached limit count' then acc'
         else collect_triples limit rest acc' count')"

text \<open>The loop over \<^verbatim>\<open>graph.namespaces()\<close>.\<close>

definition collect_namespaces :: "(string \<times> string) list \<Rightarrow> string dict" where
  "collect_namespaces ns = foldl (\<lambda>d (prefix, uri). dict_set prefix uri d) [] ns"

definition graph_to_json :: "rdf_graph \<Rightarrow> int option \<Rightarrow> graph_json" where
  "graph_to_json graph limit =
     \<lparr>triples = collect_triples limit (graph_triples graph) [] 0,
      total_triples = len_graph graph,
      namespaces = collect_namespaces (graph_namespaces graph),
      limited_to = (if truthy limit then limit else None)\<rparr>"

text \<open>What \<^verbatim>\<open>graph_to_json\<close> emits: a prefix of the enumeration, translated entry by entry.\<close>

definition emitted :: "int option \<Rightarrow> nat \<Rightarrow> nat" where
  "emitted limit m =
     (case limit of None \<Rightarrow> m
      | Some n \<Rightarrow> if n = 0 then m else min (max 1 (nat n)) m)"

section \<open>The query interceptor\<close>

subsection \<open>Exceptions, the outside world, the state of a run\<close>

text \<open>
  A Python exception (a subclass of \<^verbatim>\<open>Exception\<close>): its class name and its message.
  \<^verbatim>\<open>str(e)\<close> is the message; \<^verbatim>\<open>traceback.format_exc()\<close> ends with the class
  and the message.
\<close>

datatype pyexc = PyExc (exc_type: string) (exc_msg: string)

definition str_exc :: "pyexc \<Rightarrow> string" where
  "str_exc e = exc_msg e"

definition format_exc :: "pyexc \<Rightarrow> string" where
  "format_exc e = ''Traceback (most recent call last): '' @ exc_type e @ '': '' @ exc_msg e"

text \<open>
  The world outside the script: the files that exist, with their contents, and in
  \<open>store\<close> everything else the engine and the graphs keep. A call into the engine or
  into a library returns a value or raises, may change the outside world, and takes some
  time (a number of clock ticks).
\<close>

record 'x ext =
  files :: "string \<rightharpoonup> string"
  store :: 'x

type_synonym ('x, 'a) external = "'x ext \<Rightarrow> (pyexc + 'a) \<times> 'x ext \<times> nat"

text \<open>
  A query object is the query text, and \<^verbatim>\<open>str(query_object)\<close> gives it back.
  A graph's own \<^verbatim>\<open>query\<close> method (the \<^verbatim>\<open>original_query\<close> of the script) maps a
  query to the rows its result object will yield. The rows depend on the query and on the
  outside world only: whatever a query's answer can vary with is part of \<open>store\<close>.
\<close>

type_synonym query = string

definition str_query :: "query \<Rightarrow> string" where
  "str_query query_object = query_object"

type_synonym row = "pyval list"

type_synonym 'x original_query = "query \<Rightarrow> ('x, row list) external"

text \<open>The dict appended to \<^verbatim>\<open>queries\<close>. Times are clock readings, in ticks.\<close>

record query_record =
  query :: string
  execution_time :: int
  result_count :: nat
  timestamp :: int

text \<open>
  A graph object as the engine holds it: its own query method, and whether
  \<^verbatim>\<open>g.query\<close> has been replaced by \<^verbatim>\<open>capturing_query\<close>.
\<close>

datatype 'x graph_obj = Graph_obj (own_query: "'x original_query") (instrumented: bool)

subsection \<open>The output documents\<close>

record statistics =
  initial_triples :: nat
  enriched_triples :: nat
  predictions_added :: nat

record graphs_section =
  initial :: graph_json
  enriched :: graph_json
  statistics :: statistics

record output_files =
  predictions_folder :: string
  enriched_kg_path :: string
  log_file :: string

record summary =
  total_predictions :: nat
  queries_executed :: nat
  processing_successful :: bool

record envelope_head =
  success :: bool

record success_output = envelope_head +
  out_execution_time :: int
  out_timestamp :: int
  predictions_dataframe :: table_json
  new_triples :: "pyval spo list"
  graphs :: graphs_section
  sparql_queries :: "query_record list"
  output_files :: output_files
  summary :: summary

record error_output = envelope_head +
  error :: string
  traceback :: string
  err_timestamp :: int

text \<open>
  One \<^verbatim>\<open>print(json.dumps(...))\<close>: \<^verbatim>\<open>json.dumps\<close> returns the whole text or
  raises, so what reaches the output stream is a whole document.
\<close>

datatype document = Success_doc success_output | Failure_doc error_output

datatype engine_call = Call_initialize | Call_load_graph | Call_process_rules

text \<open>
  The state of a run: the outside world and the clock; the result objects created so far,
  each with the rows it has still to yield (a result object is its index); the list
  \<^verbatim>\<open>queries\<close> of \<^verbatim>\<open>capture_sparql_queries\<close>; the documents printed; and, for the
  statements below, the engine entry points called and the paths given to
  \<^verbatim>\<open>os.remove\<close>.
\<close>

record 'x state =
  ext :: "'x ext"
  now :: int
  results :: "row list list"
  queries :: "query_record list"
  stdout :: "document list"
  invoked :: "engine_call list"
  removed :: "string list"

definition call_external :: "('x, 'a) external \<Rightarrow> 'x state \<Rightarrow> (pyexc + 'a) \<times> 'x state" where
  "call_external f st =
     (case f (ext st) of (r, x', d) \<Rightarrow> (r, st\<lparr>ext := x', now := now st + int d\<rparr>))"

text \<open>Sequencing of steps that may raise: the first exception ends the sequence.\<close>

definition and_then ::
  "('s \<Rightarrow> (pyexc + 'a) \<times> 's) \<Rightarrow> ('a \<Rightarrow> 's \<Rightarrow> (pyexc + 'b) \<times> 's) \<Rightarrow> 's \<Rightarrow> (pyexc + 'b) \<times> 's" where
  "and_then m f st = (case m st of (Inl e, st') \<Rightarrow> (Inl e, st') | (Inr a, st') \<Rightarrow> f a st')"

subsection \<open>capture_sparql_queries\<close>

text \<open>\<^verbatim>\<open>original_query(query_object)\<close>: runs the query and creates a new result object.\<close>

definition original_query_call :: "'x original_query \<Rightarrow> query \<Rightarrow> 'x state \<Rightarrow> (pyexc + nat) \<times> 'x state" where
  "original_query_call original_query query_object =
     and_then (call_external (original_query query_object))
       (\<lambda>rows st. (Inr (length (results st)), st\<lparr>results := results st @ [rows]\<rparr>))"

text \<open>\<^verbatim>\<open>list(results)\<close>: yields the rows the object still holds and leaves it exhausted.\<close>

definition list_results :: "nat \<Rightarrow> 'x state \<Rightarrow> row list \<times> 'x state" where
  "list_results r st = (results st ! r, st\<lparr>results := (results st)[r := []]\<rparr>)"

definition capturing_query :: "'x original_query \<Rightarrow> query \<Rightarrow> 'x state \<Rightarrow> (pyexc + nat) \<times> 'x state" where
  "capturing_query original_query query_object st =
     (let query_str = str_query query_object;
          start_time = now st
      in and_then (original_query_call original_query query_object)
           (\<lambda>results st1.
              let (results_list, st2) = list_results results st1;
                  st3 = st2\<lparr>queries := queries st2 @
                          [\<lparr>query = query_str,
                            execution_time = now st2 - start_time,
                            result_count = length results_list,
                            timestamp = now st2\<rparr>]\<rparr>
              in original_query_call original_query query_object st3) st)"

text \<open>
  \<^verbatim>\<open>patched_load_graph\<close>: the graph of \<^verbatim>\<open>original_load_graph\<close>, a new object on every
  call, with its \<^verbatim>\<open>query\<close> replaced.
\<close>

definition patched_load_graph ::
  "(string \<Rightarrow> ('x, 'x original_query) external) \<Rightarrow> string \<Rightarrow> 'x state \<Rightarrow> (pyexc + 'x graph_obj) \<times> 'x state" where
  "patched_load_graph original_load_graph file =
     and_then (\<lambda>st. call_external (original_load_graph file)
                      (st\<lparr>invoked := invoked st @ [Call_load_graph]\<rparr>))
       (\<lambda>original_query st. (Inr (Graph_obj original_query True), st))"

text \<open>\<^verbatim>\<open>g.query(query_object)\<close>, whichever function \<^verbatim>\<open>g.query\<close> is bound to.\<close>

definition graph_query :: "'x graph_obj \<Rightarrow> query \<Rightarrow> 'x state \<Rightarrow> (pyexc + nat) \<times> 'x state" where
  "graph_query g query_object =
     (if instrumented g then capturing_query (own_query g) query_object
      else original_query_call (own_query g) query_object)"

text \<open>\<^verbatim>\<open>capture_sparql_queries\<close> itself: a new empty list; the loader is patched from here on.\<close>

definition capture_sparql_queries :: "'x state \<Rightarrow> 'x state" where
  "capture_sparql_queries st = st\<lparr>queries := []\<rparr>"

subsection \<open>What the engine does with its graphs\<close>

text \<open>
  The engine's code is not part of the script. What it does between the call of
  \<^verbatim>\<open>process_rules\<close> and its return is taken as a list of actions: loading a graph
  through \<^verbatim>\<open>Symbolic_predictions.load_graph\<close> (the patched function), or querying the
  \<open>i\<close>-th graph it has loaded. An exception in either ends the run of the actions.
\<close>

datatype action = Load string | Query nat query

fun run_actions ::
  "(string \<Rightarrow> ('x, 'x original_query) external) \<Rightarrow> action list \<Rightarrow> 'x graph_obj list \<Rightarrow> 'x state
     \<Rightarrow> (pyexc + unit) \<times> 'x state" where
  "run_actions original_load_graph [] gs st = (Inr (), st)"
| "run_actions original_load_graph (Load file # acts) gs st =
     (case patched_load_graph original_load_graph file st of
        (Inl e, st') \<Rightarrow> (Inl e, st')
      | (Inr g, st') \<Rightarrow> run_actions original_load_graph acts (gs @ [g]) st')"
| "run_actions original_load_graph (Query i query_object # acts) gs st =
     (if i < length gs
      then (case graph_query (gs ! i) query_object st of
              (Inl e, st') \<Rightarrow> (Inl e, st')
            | (Inr r, st') \<Rightarrow> run_actions original_load_graph acts gs st')
      else (Inl (PyExc ''IndexError'' ''list index out of range''), st))"

text \<open>The texts of the queries a list of actions issues, in the order it issues them.\<close>

fun issued :: "action list \<Rightarrow> string list" where
  "issued [] = []"
| "issued (Load file # acts) = issued acts"
| "issued (Query i query_object # acts) = str_query query_object # issued acts"

text \<open>
  The log the specification asks for, read off the outside world alone: one record for every query
  the engine runs on an instrumented graph, in the order it runs them, holding the text
  of the query, the time its execution took, the number of rows it produced and the
  clock reading when it had finished. \<open>oqs\<close> are the query methods of the graphs loaded
  so far, \<open>x\<close> is the outside world and \<open>t\<close> the clock. Before the engine goes on, the
  query is run once more for the caller, which takes time and may change the world; an
  exception ends the engine's work.
\<close>

fun expected_records ::
  "(string \<Rightarrow> ('x, 'x original_query) external) \<Rightarrow> action list \<Rightarrow> 'x original_query list
     \<Rightarrow> 'x ext \<Rightarrow> int \<Rightarrow> query_record list" where
  "expected_records original_load_graph [] oqs x t = []"
| "expected_records original_load_graph (Load file # acts) oqs x t =
     (case original_load_graph file x of
        (Inl e, x', d) \<Rightarrow> []
      | (Inr oq, x', d) \<Rightarrow>
          expected_records original_load_graph acts (oqs @ [oq]) x' (t + int d))"
| "expected_records original_load_graph (Query i query_object # acts) oqs x t =
     (if i < length oqs
      then (case (oqs ! i) query_object x of
              (Inl e, x1, d1) \<Rightarrow> []
            | (Inr rows, x1, d1) \<Rightarrow>
                \<lparr>query = str_query query_object,
                 execution_time = int d1,
                 result_count = length rows,
                 timestamp = t + int d1\<rparr> #
                (case (oqs ! i) query_object x1 of
                   (Inl e, x2, d2) \<Rightarrow> []
                 | (Inr rows', x2, d2) \<Rightarrow>
                     expected_records original_load_graph acts oqs x2 (t + int d1 + int d2)))
      else [])"


section \<open>The run\<close>

subsection \<open>What a run is given\<close>

text \<open>
  The input stream holds either a text \<^verbatim>\<open>json.load\<close> rejects (with the decoder's
  message) or a JSON document.
\<close>

datatype json_input = Malformed string | Wellformed string

fun json_load :: "json_input \<Rightarrow> pyexc + string" where
  "json_load (Malformed msg) = Inl (PyExc ''JSONDecodeError'' msg)"
| "json_load (Wellformed doc) = Inr doc"

text \<open>
  The engine module. \<^verbatim>\<open>initialize\<close> returns the eight values the script unpacks
  (prefix, rulesfile, rdf_data, path, predictions_folder, constraints, kg, pca_threshold).
  \<^verbatim>\<open>process_rules\<close> is the actions it performs on graphs, followed by the rest of
  its work, which returns the prediction table and the enriched graph or raises.
\<close>

type_synonym init_result =
  "string \<times> string \<times> string \<times> string \<times> string \<times> string \<times> string \<times> string"

record 'x engine =
  initialize :: "string \<Rightarrow> ('x, init_result) external"
  load_graph :: "string \<Rightarrow> ('x, 'x original_query) external"
  process_rules ::
    "string \<Rightarrow> string \<Rightarrow> string \<Rightarrow> string \<Rightarrow> string \<Rightarrow> string \<Rightarrow>
       action list \<times> ('x, dataframe option \<times> rdf_graph) external"

text \<open>
  One invocation: the input stream, what \<^verbatim>\<open>tempfile.NamedTemporaryFile\<close> does (it
  raises, or creates a file and gives its path), the module-level \<^verbatim>\<open>log_file\<close>,
  the engine, rdflib's N-Triples parser, and the outside world and the clock at the start.
\<close>

record 'x invocation =
  stdin :: json_input
  named_temporary_file :: "pyexc + string"
  module_log_file :: string
  engine :: "'x engine"
  graph_parse :: "string \<Rightarrow> ('x, rdf_graph) external"
  world :: "'x ext"
  clock :: int

definition initial_state :: "'x invocation \<Rightarrow> 'x state" where
  "initial_state job =
     \<lparr>ext = world job, now = clock job, results = [], queries = [], stdout = [],
      invoked = [], removed = []\<rparr>"

subsection \<open>Paths\<close>

text \<open>\<^verbatim>\<open>os.path.dirname\<close> and \<^verbatim>\<open>os.path.join\<close> (posixpath).\<close>

definition dirname :: "string \<Rightarrow> string" where
  "dirname p =
     (let head = rev (dropWhile (\<lambda>c. c \<noteq> CHR ''/'') (rev p))
      in if head \<noteq> [] \<and> \<not> list_all (\<lambda>c. c = CHR ''/'') head
         then rev (dropWhile (\<lambda>c. c = CHR ''/'') (rev head))
         else head)"

definition join2 :: "string \<Rightarrow> string \<Rightarrow> string" where
  "join2 a b =
     (if b \<noteq> [] \<and> hd b = CHR ''/'' then b
      else if a = [] \<or> last a = CHR ''/'' then a @ b
      else a @ ''/'' @ b)"

definition path_join :: "string \<Rightarrow> string \<Rightarrow> string \<Rightarrow> string" where
  "path_join a b c = join2 (join2 a b) c"

subsection \<open>The new triples\<close>

text \<open>
  \<^verbatim>\<open>row['subject']\<close> on a row of \<^verbatim>\<open>iterrows()\<close>: a missing label raises
  \<^verbatim>\<open>KeyError\<close>, a label that names one column gives its cell, a label that names
  several columns gives a Series of their cells.
\<close>

definition row_get :: "string list \<Rightarrow> pyval list \<Rightarrow> string \<Rightarrow> pyexc + pyval" where
  "row_get cols r k =
     (case filter (\<lambda>(c, v). c = k) (zip cols r) of
        [] \<Rightarrow> Inl (PyExc ''KeyError'' k)
      | [(c, v)] \<Rightarrow> Inr v
      | _ \<Rightarrow> Inr (VObj ''Series''))"

fun iterrows_loop :: "string list \<Rightarrow> pyval list list \<Rightarrow> pyval spo list \<Rightarrow> pyexc + pyval spo list" where
  "iterrows_loop cols [] acc = Inr acc"
| "iterrows_loop cols (r # rest) acc =
     (case row_get cols r ''subject'' of Inl e \<Rightarrow> Inl e | Inr s \<Rightarrow>
      (case row_get cols r ''predicate'' of Inl e \<Rightarrow> Inl e | Inr p \<Rightarrow>
       (case row_get cols r ''object'' of Inl e \<Rightarrow> Inl e | Inr ob \<Rightarrow>
          iterrows_loop cols rest
            (acc @ [\<lparr>subject = s, predicate = p, object = ob\<rparr>]))))"

fun collect_new_triples :: "dataframe option \<Rightarrow> pyexc + pyval spo list" where
  "collect_new_triples None = Inr []"
| "collect_new_triples (Some result_df) =
     (if df_empty result_df then Inr []
      else iterrows_loop (df_columns result_df) (df_rows result_df) [])"

text \<open>
  For the statements below: the cells of row \<open>r\<close> in the columns labelled \<open>k\<close>.
\<close>

definition cells_under :: "string list \<Rightarrow> pyval list \<Rightarrow> string \<Rightarrow> pyval list" where
  "cells_under cols r k = map snd (filter (\<lambda>(c, v). c = k) (zip cols r))"

subsection \<open>Serialisation\<close>

text \<open>
  \<^verbatim>\<open>json.dumps(output)\<close> raises \<^verbatim>\<open>TypeError\<close> when it meets a value it cannot
  encode. The table cells, in \<open>predictions_dataframe\<close> and in \<open>new_triples\<close>, are the
  only values of the envelope that are not strings, numbers, booleans, lists or dicts
  by construction.
\<close>

fun json_serializable :: "pyval \<Rightarrow> bool" where
  "json_serializable (VObj cls) = False"
| "json_serializable v = True"

definition output_serializable :: "success_output \<Rightarrow> bool" where
  "output_serializable out \<longleftrightarrow>
     list_all (\<lambda>row. list_all (\<lambda>(k, v). json_serializable v) row)
       (data (predictions_dataframe out)) \<and>
     list_all (\<lambda>t. json_serializable (subject t) \<and> json_serializable (predicate t) \<and>
                    json_serializable (object t)) (new_triples out)"

definition json_dumps_output :: "success_output \<Rightarrow> pyexc + document" where
  "json_dumps_output out =
     (if output_serializable out then Inr (Success_doc out)
      else Inl (PyExc ''TypeError'' ''Object is not JSON serializable''))"

definition print_doc :: "document \<Rightarrow> 'x state \<Rightarrow> 'x state" where
  "print_doc doc st = st\<lparr>stdout := stdout st @ [doc]\<rparr>"

subsection \<open>main\<close>

text \<open>The \<^verbatim>\<open>with tempfile.NamedTemporaryFile(...)\<close> block, once the file is created.\<close>

definition stage :: "string \<Rightarrow> string \<Rightarrow> 'x state \<Rightarrow> 'x state" where
  "stage temp_config_path input_data st =
     st\<lparr>ext := (ext st)\<lparr>files := (files (ext st))(temp_config_path \<mapsto> input_data)\<rparr>\<rparr>"

definition call_initialize :: "'x engine \<Rightarrow> string \<Rightarrow> 'x state \<Rightarrow> (pyexc + init_result) \<times> 'x state" where
  "call_initialize eng temp_config_path st =
     call_external (initialize eng temp_config_path)
       (st\<lparr>invoked := invoked st @ [Call_initialize]\<rparr>)"

definition call_process_rules ::
  "'x engine \<Rightarrow> string \<Rightarrow> string \<Rightarrow> string \<Rightarrow> string \<Rightarrow> string \<Rightarrow> string \<Rightarrow> 'x state
     \<Rightarrow> (pyexc + dataframe option \<times> rdf_graph) \<times> 'x state" where
  "call_process_rules eng rulesfile pfx rdf_data folder kg pca_threshold st =
     (case process_rules eng rulesfile pfx rdf_data folder kg pca_threshold of
        (acts, finish) \<Rightarrow>
          and_then (run_actions (load_graph eng) acts [])
            (\<lambda>u. call_external finish)
            (st\<lparr>invoked := invoked st @ [Call_process_rules]\<rparr>))"

text \<open>The dict \<^verbatim>\<open>output\<close>.\<close>

definition build_output ::
  "int \<Rightarrow> string \<Rightarrow> string \<Rightarrow> string \<Rightarrow> graph_json \<Rightarrow> table_json \<Rightarrow> graph_json
     \<Rightarrow> pyval spo list \<Rightarrow> 'x state \<Rightarrow> success_output" where
  "build_output start_time logfile folder kg initial_graph_json predictions_json
       enriched_graph_json triples_list st =
     \<lparr>success = True,
      out_execution_time = now st - start_time,
      out_timestamp = now st,
      predictions_dataframe = predictions_json,
      new_triples = triples_list,
      graphs = \<lparr>initial = initial_graph_json,
                enriched = enriched_graph_json,
                statistics = \<lparr>initial_triples = total_triples initial_graph_json,
                              enriched_triples = total_triples enriched_graph_json,
                              predictions_added = length triples_list\<rparr>\<rparr>,
      sparql_queries = queries st,
      output_files = \<lparr>predictions_folder = folder,
                      enriched_kg_path = path_join (dirname folder)
                                           (kg @ ''_EnrichedKG'') (kg @ ''_Enriched_KG.nt''),
                      log_file = logfile\<rparr>,
      summary = \<lparr>total_predictions = length triples_list,
                 queries_executed = length (queries st),
                 processing_successful = True\<rparr>\<rparr>"

text \<open>The \<^verbatim>\<open>try\<close> block up to the assembled \<^verbatim>\<open>output\<close>.\<close>

definition assemble :: "'x invocation \<Rightarrow> string \<Rightarrow> 'x state \<Rightarrow> (pyexc + success_output) \<times> 'x state" where
  "assemble job temp_config_path st0 =
     (let start_time = now st0 in
      and_then (call_initialize (engine job) temp_config_path)
        (\<lambda>(prefix, rulesfile, rdf_data, path, predictions_folder, constraints, kg, pca_threshold).
      and_then (call_external (graph_parse job rdf_data))
        (\<lambda>initial_graph.
           let initial_graph_json = graph_to_json initial_graph (Some 100) in
      and_then (call_process_rules (engine job) rulesfile prefix rdf_data predictions_folder kg
                  pca_threshold)
        (\<lambda>(result_df, enriched_kg).
           let predictions_json = dataframe_to_json result_df;
               enriched_graph_json = graph_to_json enriched_kg (Some 1000) in
      and_then (\<lambda>st. (collect_new_triples result_df, st))
        (\<lambda>new_triples st.
           (Inr (build_output start_time (module_log_file job) predictions_folder kg
                   initial_graph_json predictions_json enriched_graph_json new_triples st),
            st))))) st0)"

text \<open>The whole \<^verbatim>\<open>try\<close> block: \<^verbatim>\<open>print(json.dumps(output, indent=2))\<close> ends it.\<close>

definition try_block :: "'x invocation \<Rightarrow> string \<Rightarrow> 'x state \<Rightarrow> (pyexc + unit) \<times> 'x state" where
  "try_block job temp_config_path =
     and_then (assemble job temp_config_path)
       (\<lambda>output st. case json_dumps_output output of
                        Inl e \<Rightarrow> (Inl e, st)
                      | Inr doc \<Rightarrow> (Inr (), print_doc doc st))"

text \<open>
  How the process ends: \<^verbatim>\<open>main\<close> returns, \<^verbatim>\<open>sys.exit\<close> is called, or an
  exception reaches the top level (the interpreter then exits with status 1).
\<close>

datatype process_end = Returned | SystemExit nat | Uncaught pyexc

fun exit_status :: "process_end \<Rightarrow> nat" where
  "exit_status Returned = 0"
| "exit_status (SystemExit n) = n"
| "exit_status (Uncaught e) = 1"

text \<open>The \<^verbatim>\<open>except Exception as e\<close> clause.\<close>

definition except_block :: "pyexc \<Rightarrow> 'x state \<Rightarrow> process_end \<times> 'x state" where
  "except_block e st =
     (let error_output = \<lparr>success = False, error = str_exc e, traceback = format_exc e,
                           err_timestamp = now st\<rparr>
      in (SystemExit 1, print_doc (Failure_doc error_output) st))"

definition try_except :: "'x invocation \<Rightarrow> string \<Rightarrow> 'x state \<Rightarrow> process_end \<times> 'x state" where
  "try_except job temp_config_path st =
     (case try_block job temp_config_path st of
        (Inr u, st') \<Rightarrow> (Returned, st')
      | (Inl e, st') \<Rightarrow> except_block e st')"

text \<open>The \<^verbatim>\<open>finally\<close> clause.\<close>

definition finally_block :: "string \<Rightarrow> 'x state \<Rightarrow> 'x state" where
  "finally_block temp_config_path st =
     (case files (ext st) temp_config_path of
        None \<Rightarrow> st
      | Some content \<Rightarrow>
          st\<lparr>ext := (ext st)\<lparr>files := (files (ext st))(temp_config_path := None)\<rparr>,
             removed := removed st @ [temp_config_path]\<rparr>)"

definition main :: "'x invocation \<Rightarrow> process_end \<times> 'x state" where
  "main job =
     (let st1 = capture_sparql_queries (initial_state job)
      in case json_load (stdin job) of
           Inl e \<Rightarrow> (Uncaught e, st1)
         | Inr input_data \<Rightarrow>
             (case named_temporary_file job of
                Inl e \<Rightarrow> (Uncaught e, st1)
              | Inr temp_config_path \<Rightarrow>
                  (case try_except job temp_config_path
                          (stage temp_config_path input_data st1) of
                     (t, st) \<Rightarrow> (t, finally_block temp_config_path st))))"

section \<open>Example inputs\<close>

text \<open>A graph whose query method answers \<^verbatim>\<open>ASK\<close> with one row and anything else with two.\<close>

definition demo_query :: "unit original_query" where
  "demo_query q x =
     (if q = ''ASK'' then (Inr [[VBool True]], x, 2)
      else (Inr [[VStr ''a''], [VStr ''b'']], x, 5))"

definition demo_state :: "unit state" where
  "demo_state = \<lparr>ext = \<lparr>files = Map.empty, store = ()\<rparr>, now = 0, results = [],
     queries = [], stdout = [], invoked = [], removed = []\<rparr>"

text \<open>
  A run: the engine loads the graph, issues two queries, and returns a table of two rows
  whose first \<open>object\<close> cell is the parameter, with the enriched graph.
\<close>

definition demo_graph :: rdf_graph where
  "demo_graph =
     \<lparr>graph_triples = [(URIRef ''http://ex/a'', URIRef ''http://ex/knows'', URIRef ''http://ex/b''),
                       (URIRef ''http://ex/a'', URIRef ''http://ex/name'', Literal ''A'' None None)],
      graph_namespaces = [(''ex'', ''http://ex/'')]\<rparr>"

definition demo_table :: "pyval \<Rightarrow> dataframe" where
  "demo_table v =
     \<lparr>df_columns = [''subject'', ''predicate'', ''object'', ''score''],
      df_dtypes = [''object'', ''object'', ''object'', ''int64''],
      df_rows = [[VStr ''a'', VStr ''knows'', v, VInt 1],
                 [VStr ''b'', VStr ''knows'', VStr ''c'', VInt 2]]\<rparr>"

definition demo_engine :: "pyval \<Rightarrow> unit engine" where
  "demo_engine v =
     \<lparr>initialize = (\<lambda>p x. (Inr (''ex'', ''rules.csv'', ''kg.nt'', ''data'', ''out/predictions'',
                                   ''none'', ''KG'', ''0.5''), x, 1)),
      load_graph = (\<lambda>f x. (Inr demo_query, x, 1)),
      process_rules = (\<lambda>rulesfile pfx rdf_data folder kg pca.
         ([Load rdf_data, Query 0 ''SELECT'', Query 0 ''ASK''],
          (\<lambda>x. (Inr (Some (demo_table v), demo_graph), x, 3))))\<rparr>"

definition demo_job :: "pyval \<Rightarrow> unit invocation" where
  "demo_job v =
     \<lparr>stdin = Wellformed ''{}'',
      named_temporary_file = Inr ''/tmp/tmpabc.json'',
      module_log_file = ''logs/full_data.log'',
      engine = demo_engine v,
      graph_parse = (\<lambda>p x. (Inr demo_graph, x, 1)),
      world = \<lparr>files = Map.empty, store = ()\<rparr>,
      clock = 0\<rparr>"

section \<open>Properties of the translators\<close>








lemma take_min_length: "take (min k (length xs)) xs = take k xs"
  by (simp add: min_def)

lemma collect_triples_unlimited:
  "\<not> truthy limit \<Longrightarrow> collect_triples limit ts acc c = acc @ map triple_entry ts"
  by (induction ts arbitrary: acc c) (cases limit; simp)+

lemma collect_triples_limited:
  "n \<noteq> 0 \<Longrightarrow>
   collect_triples (Some n) ts acc c = acc @ map triple_entry (take (max 1 (nat (n - c))) ts)"
proof (induction ts arbitrary: acc c)
  case Nil
  show ?case by simp
next
  case (Cons t rest)
  show ?case
  proof (cases "c + 1 \<ge> n")
    case True
    then have "max 1 (nat (n - c)) = 1" by simp
    with True Cons.prems show ?thesis by simp
  next
    case False
    then have k: "max 1 (nat (n - c)) = Suc (max 1 (nat (n - (c + 1))))" by simp
    from False Cons.prems Cons.IH [OF Cons.prems, of "acc @ [triple_entry t]" "c + 1"]
    show ?thesis unfolding k by simp
  qed
qed

lemma triples_graph_to_json:
  "triples (graph_to_json g limit) =
     map triple_entry (take (emitted limit (len_graph g)) (graph_triples g))"
proof (cases "truthy limit")
  case False
  then show ?thesis
    by (cases limit) (simp_all add: graph_to_json_def collect_triples_unlimited emitted_def len_graph_def)
next
  case True
  then obtain n where n: "limit = Some n" "n \<noteq> 0" by (cases limit) auto
  then show ?thesis
    by (simp add: graph_to_json_def collect_triples_limited emitted_def len_graph_def
        take_min_length)
qed

lemma dict_set_fresh: "k \<notin> set (keys d) \<Longrightarrow> dict_set k v d = d @ [(k, v)]"
  by (induction d) (auto simp: keys_def)

lemma foldl_dict_set_distinct:
  "distinct (keys d0 @ map fst ps) \<Longrightarrow> foldl (\<lambda>d (k, v). dict_set k v d) d0 ps = d0 @ ps"
proof (induction ps arbitrary: d0)
  case Nil
  show ?case by simp
next
  case (Cons p ps)
  obtain k v where p: "p = (k, v)" by (cases p)
  from Cons.prems p have fresh: "k \<notin> set (keys d0)" by auto
  from Cons.prems p have "distinct (keys (d0 @ [(k, v)]) @ map fst ps)"
    by (auto simp: keys_def)
  from Cons.IH [OF this] fresh p show ?case by (simp add: dict_set_fresh)
qed

lemma dict_of_distinct: "distinct (map fst ps) \<Longrightarrow> dict_of ps = ps"
  using foldl_dict_set_distinct [of "[]" ps] by (simp add: dict_of_def keys_def)

subsection \<open>graph_to_json: truncation\<close>

text \<open>
  C1, as the code has it. A limit of \<open>0\<close> is false in \<^verbatim>\<open>if limit and count >= limit\<close>
  and in \<^verbatim>\<open>limit if limit else None\<close>, so it means "no limit": one triple in the
  graph and \<open>limit = 0\<close> give one emitted triple, not \<open>min 0 1 = 0\<close>.
\<close>

theorem graph_to_json_limit_zero_counterexample:
  "length (triples (graph_to_json
       \<lparr>graph_triples = [(URIRef ''s'', URIRef ''p'', URIRef ''o'')], graph_namespaces = []\<rparr>
       (Some 0)))
   \<noteq> min (nat 0) (total_triples (graph_to_json
       \<lparr>graph_triples = [(URIRef ''s'', URIRef ''p'', URIRef ''o'')], graph_namespaces = []\<rparr>
       (Some 0)))"
  by (simp add: graph_to_json_def len_graph_def)

text \<open>
  C1, amended: \<open>total_triples\<close> is the size of the store whatever the limit; a positive
  limit \<open>n\<close> gives \<open>min n total_triples\<close> triples and \<open>limited_to = n\<close>; no limit, or
  the limit \<open>0\<close>, gives every triple and \<open>limited_to\<close> null.
\<close>

theorem graph_to_json_truncation:
  "total_triples (graph_to_json g limit) = len_graph g \<and>
   (case limit of
      None \<Rightarrow> length (triples (graph_to_json g limit)) = len_graph g \<and>
              limited_to (graph_to_json g limit) = None
    | Some n \<Rightarrow>
        (0 < n \<longrightarrow> length (triples (graph_to_json g limit)) = min (nat n) (len_graph g) \<and>
                 limited_to (graph_to_json g limit) = Some n) \<and>
        (n = 0 \<longrightarrow> length (triples (graph_to_json g limit)) = len_graph g \<and>
                 limited_to (graph_to_json g limit) = None))"
proof -
  have total: "total_triples (graph_to_json g limit) = len_graph g"
    by (simp add: graph_to_json_def)
  have len: "length (triples (graph_to_json g limit)) = emitted limit (len_graph g)"
    by (simp add: triples_graph_to_json len_graph_def emitted_def split: option.split)
  have lim: "limited_to (graph_to_json g limit) = (if truthy limit then limit else None)"
    by (simp add: graph_to_json_def)
  show ?thesis
    unfolding total len lim by (cases limit) (auto simp: emitted_def)
qed

theorem graph_to_json_truncation_witness:
  "length (triples (graph_to_json
      \<lparr>graph_triples = replicate 150 (URIRef ''s'', URIRef ''p'', URIRef ''o''), graph_namespaces = []\<rparr>
      (Some 100))) = 100 \<and>
   total_triples (graph_to_json
      \<lparr>graph_triples = replicate 150 (URIRef ''s'', URIRef ''p'', URIRef ''o''), graph_namespaces = []\<rparr>
      (Some 100)) = 150 \<and>
   limited_to (graph_to_json
      \<lparr>graph_triples = replicate 150 (URIRef ''s'', URIRef ''p'', URIRef ''o''), graph_namespaces = []\<rparr>
      (Some 100)) = Some 100 \<and>
   length (triples (graph_to_json
      \<lparr>graph_triples = replicate 3 (URIRef ''s'', URIRef ''p'', URIRef ''o''), graph_namespaces = []\<rparr>
      (Some 0))) = 3 \<and>
   limited_to (graph_to_json
      \<lparr>graph_triples = replicate 3 (URIRef ''s'', URIRef ''p'', URIRef ''o''), graph_namespaces = []\<rparr>
      (Some 0)) = None"
  using graph_to_json_truncation
      [of "\<lparr>graph_triples = replicate 150 (URIRef ''s'', URIRef ''p'', URIRef ''o''), graph_namespaces = []\<rparr>"
          "Some 100"]
    graph_to_json_truncation
      [of "\<lparr>graph_triples = replicate 3 (URIRef ''s'', URIRef ''p'', URIRef ''o''), graph_namespaces = []\<rparr>"
          "Some 0"]
  by (simp add: len_graph_def)

subsection \<open>graph_to_json: the object type\<close>

text \<open>
  C5, as the code has it. The test is \<^verbatim>\<open>hasattr(o, 'datatype')\<close>, and every rdflib
  literal has that attribute: the plain literal \<^verbatim>\<open>"hello"\<close>, with neither a datatype nor
  a language tag, is emitted as \<^verbatim>\<open>"literal"\<close>.
\<close>

theorem object_type_plain_literal_counterexample:
  "\<not> (object_type (hd (triples (graph_to_json
         \<lparr>graph_triples = [(URIRef ''s'', URIRef ''p'', Literal ''hello'' None None)],
          graph_namespaces = []\<rparr> None))) = ''literal''
      \<longleftrightarrow> carries_datatype_or_language (Literal ''hello'' None None))"
  by (simp add: graph_to_json_def)

text \<open>
  C5, amended: the \<open>i\<close>-th emitted entry is \<^verbatim>\<open>"literal"\<close> if and only if the object of
  the \<open>i\<close>-th triple is a literal term, with or without a datatype or language tag; a URI
  reference or a blank node is emitted as \<^verbatim>\<open>"uri"\<close>.
\<close>

theorem object_type_literal_iff:
  assumes "i < length (triples (graph_to_json g limit))"
  shows "i < len_graph g \<and>
         (object_type (triples (graph_to_json g limit) ! i) = ''literal''
            \<longleftrightarrow> is_Literal (snd (snd (graph_triples g ! i)))) \<and>
         (object_type (triples (graph_to_json g limit) ! i) = ''uri''
            \<longleftrightarrow> \<not> is_Literal (snd (snd (graph_triples g ! i))))"
proof -
  let ?k = "emitted limit (len_graph g)"
  from assms have i: "i < length (take ?k (graph_triples g))"
    by (simp add: triples_graph_to_json)
  then have bound: "i < len_graph g" by (simp add: len_graph_def)
  from i have entry: "triples (graph_to_json g limit) ! i = triple_entry (graph_triples g ! i)"
    by (simp add: triples_graph_to_json)
  obtain s p ob where t: "graph_triples g ! i = (s, p, ob)" by (cases "graph_triples g ! i")
  show ?thesis unfolding entry t using bound by (cases ob) simp_all
qed

theorem object_type_literal_iff_witness:
  "object_type (triples (graph_to_json
       \<lparr>graph_triples = [(URIRef ''s'', URIRef ''p'', Literal ''hello'' None None),
                         (URIRef ''s'', URIRef ''p'', URIRef ''o'')],
        graph_namespaces = []\<rparr> (Some 5)) ! 0) = ''literal'' \<and>
   object_type (triples (graph_to_json
       \<lparr>graph_triples = [(URIRef ''s'', URIRef ''p'', Literal ''hello'' None None),
                         (URIRef ''s'', URIRef ''p'', URIRef ''o'')],
        graph_namespaces = []\<rparr> (Some 5)) ! 1) = ''uri''"
proof -
  let ?g = "\<lparr>graph_triples = [(URIRef ''s'', URIRef ''p'', Literal ''hello'' None None),
                             (URIRef ''s'', URIRef ''p'', URIRef ''o'')],
            graph_namespaces = []\<rparr>"
  have len: "length (triples (graph_to_json ?g (Some 5))) = 2"
    by (simp add: graph_to_json_def)
  have h0: "0 < length (triples (graph_to_json ?g (Some 5)))" using len by simp
  have h1: "1 < length (triples (graph_to_json ?g (Some 5)))" using len by simp
  from object_type_literal_iff [OF h0] object_type_literal_iff [OF h1]
  show ?thesis by simp
qed

subsection \<open>dataframe_to_json\<close>



subsection \<open>The interceptor\<close>

lemma call_external_frame:
  "call_external f st = (r, st') \<Longrightarrow>
     queries st' = queries st \<and> results st' = results st \<and> stdout st' = stdout st \<and>
     invoked st' = invoked st \<and> removed st' = removed st \<and> now st \<le> now st' \<and>
     r = fst (f (ext st)) \<and> ext st' = fst (snd (f (ext st))) \<and>
     now st' = now st + int (snd (snd (f (ext st))))"
  by (auto simp: call_external_def split: prod.splits)

lemma original_query_call_Inl:
  "original_query_call oq q st = (Inl e, st') \<Longrightarrow>
     queries st' = queries st \<and> results st' = results st \<and> stdout st' = stdout st \<and>
     invoked st' = invoked st \<and> removed st' = removed st \<and> now st \<le> now st' \<and>
     fst (oq q (ext st)) = Inl e"
  by (auto simp: original_query_call_def and_then_def split: prod.splits sum.splits
      dest!: call_external_frame)

lemma original_query_call_Inr:
  "original_query_call oq q st = (Inr r, st') \<Longrightarrow>
     queries st' = queries st \<and> stdout st' = stdout st \<and>
     invoked st' = invoked st \<and> removed st' = removed st \<and> now st \<le> now st' \<and>
     r = length (results st) \<and>
     (\<exists>rows. fst (oq q (ext st)) = Inr rows \<and> results st' = results st @ [rows]) \<and>
     ext st' = fst (snd (oq q (ext st))) \<and>
     now st' = now st + int (snd (snd (oq q (ext st))))"
  by (auto simp: original_query_call_def and_then_def split: prod.splits sum.splits
      dest!: call_external_frame)

lemma capturing_query_Inl:
  assumes "capturing_query oq q st = (Inl e, st')"
  shows "stdout st' = stdout st \<and> invoked st' = invoked st \<and> removed st' = removed st \<and>
         now st \<le> now st' \<and>
         (queries st' = queries st \<or>
          (\<exists>rows. fst (oq q (ext st)) = Inr rows \<and>
             now st + int (snd (snd (oq q (ext st)))) \<le> now st' \<and>
             queries st' = queries st @
               [\<lparr>query = str_query q,
                 execution_time = int (snd (snd (oq q (ext st)))),
                 result_count = length rows,
                 timestamp = now st + int (snd (snd (oq q (ext st))))\<rparr>]))"
  using assms
  by (auto simp: capturing_query_def and_then_def list_results_def Let_def
      split: prod.splits sum.splits
      dest!: original_query_call_Inl original_query_call_Inr)

lemma capturing_query_Inr:
  assumes "capturing_query oq q st = (Inr r, st')"
  shows "stdout st' = stdout st \<and> invoked st' = invoked st \<and> removed st' = removed st \<and>
         now st \<le> now st' \<and>
         (\<exists>rows rows'. fst (oq q (ext st)) = Inr rows \<and>
             fst (oq q (fst (snd (oq q (ext st))))) = Inr rows' \<and>
             r = Suc (length (results st)) \<and>
             results st' = results st @ [[], rows'] \<and>
             queries st' = queries st @
               [\<lparr>query = str_query q,
                 execution_time = int (snd (snd (oq q (ext st)))),
                 result_count = length rows,
                 timestamp = now st + int (snd (snd (oq q (ext st))))\<rparr>] \<and>
             now st + int (snd (snd (oq q (ext st)))) \<le> now st')"
  using assms
  by (auto simp: capturing_query_def and_then_def list_results_def Let_def
      split: prod.splits sum.splits
      dest!: original_query_call_Inl original_query_call_Inr)


lemma patched_load_graph_frame:
  "patched_load_graph olg file st = (r, st') \<Longrightarrow>
     queries st' = queries st \<and> results st' = results st \<and> stdout st' = stdout st \<and>
     removed st' = removed st \<and> now st \<le> now st' \<and>
     (case r of Inl e \<Rightarrow> True | Inr g \<Rightarrow> instrumented g)"
  by (auto simp: patched_load_graph_def and_then_def split: prod.splits sum.splits
      dest!: call_external_frame)


lemma run_actions_log:
  assumes "list_all instrumented gs" and "run_actions olg acts gs st = (r, st')"
  shows "\<exists>new. queries st' = queries st @ new \<and>
           prefix (map query new) (issued acts) \<and>
           (if r = Inr () then map query new = issued acts else True) \<and>
           sorted (map timestamp new) \<and>
           list_all (\<lambda>rec. 0 \<le> execution_time rec \<and> now st \<le> timestamp rec \<and>
                           timestamp rec \<le> now st') new \<and>
           now st \<le> now st'"
  using assms
proof (induction olg acts gs st arbitrary: r st' rule: run_actions.induct)
  case (1 olg gs st)
  then show ?case by simp
next
  case (2 olg fl acts gs st)
  obtain r1 st1 where load: "patched_load_graph olg fl st = (r1, st1)"
    by (cases "patched_load_graph olg fl st")
  note fr = patched_load_graph_frame [OF load]
  show ?case
  proof (cases r1)
    case (Inl e)
    with 2 load fr show ?thesis by auto
  next
    case (Inr g)
    with fr have g: "instrumented g" by simp
    from 2 load Inr have rest: "run_actions olg acts (gs @ [g]) st1 = (r, st')" by simp
    from 2 g have all: "list_all instrumented (gs @ [g])" by simp
    from "2.IH" [OF load [symmetric] Inr all rest]
    obtain new where new: "queries st' = queries st1 @ new"
      "prefix (map query new) (issued acts)"
      "if r = Inr () then map query new = issued acts else True"
      "sorted (map timestamp new)"
      "list_all (\<lambda>rec. 0 \<le> execution_time rec \<and> now st1 \<le> timestamp rec \<and>
                           timestamp rec \<le> now st') new"
      "now st1 \<le> now st'"
      by blast
    with fr show ?thesis
      by (intro exI [of _ new]) (auto simp: list_all_iff)
  qed
next
  case (3 olg i q acts gs st)
  show ?case
  proof (cases "i < length gs")
    case False
    with 3 show ?thesis by auto
  next
    case True
    with 3 have inst: "instrumented (gs ! i)" by (simp add: list_all_length)
    obtain r1 st1 where call: "graph_query (gs ! i) q st = (r1, st1)"
      by (cases "graph_query (gs ! i) q st")
    with inst have cq: "capturing_query (own_query (gs ! i)) q st = (r1, st1)"
      by (simp add: graph_query_def)
    show ?thesis
    proof (cases r1)
      case (Inl e)
      with 3 True call have res: "r = Inl e" "st' = st1" by auto
      from capturing_query_Inl [OF cq [unfolded Inl]] res show ?thesis
        by (auto simp: str_query_def)
    next
      case (Inr ref)
      from 3 True call Inr have rest: "run_actions olg acts gs st1 = (r, st')" by simp
      from "3.IH" [OF True call [symmetric] Inr "3.prems"(1) rest]
      obtain new where new: "queries st' = queries st1 @ new"
        "prefix (map query new) (issued acts)"
        "if r = Inr () then map query new = issued acts else True"
        "sorted (map timestamp new)"
        "list_all (\<lambda>rec. 0 \<le> execution_time rec \<and> now st1 \<le> timestamp rec \<and>
                           timestamp rec \<le> now st') new"
        "now st1 \<le> now st'"
        by blast
      from capturing_query_Inr [OF cq [unfolded Inr]]
      obtain rec where rec: "queries st1 = queries st @ [rec]" "query rec = str_query q"
        "0 \<le> execution_time rec" "now st \<le> timestamp rec" "timestamp rec \<le> now st1"
        "now st \<le> now st1"
        by auto
      from new rec show ?thesis
        by (intro exI [of _ "rec # new"]) (auto simp: list_all_iff split: if_splits)
    qed
  qed
qed


lemma capturing_query_exact:
  assumes "capturing_query oq q st = (r, st')"
  shows "case oq q (ext st) of
           (Inl e, x1, d1) \<Rightarrow>
              r = Inl e \<and> queries st' = queries st \<and> ext st' = x1 \<and> now st' = now st + int d1
         | (Inr rows, x1, d1) \<Rightarrow>
              queries st' = queries st @
                [\<lparr>query = str_query q, execution_time = int d1, result_count = length rows,
                  timestamp = now st + int d1\<rparr>] \<and>
              (case oq q x1 of
                 (Inl e, x2, d2) \<Rightarrow>
                    r = Inl e \<and> ext st' = x2 \<and> now st' = now st + int d1 + int d2
               | (Inr rows', x2, d2) \<Rightarrow>
                    r = Inr (Suc (length (results st))) \<and> ext st' = x2 \<and>
                    now st' = now st + int d1 + int d2)"
  using assms
  by (auto simp: capturing_query_def and_then_def original_query_call_def call_external_def
      list_results_def Let_def split: prod.splits sum.splits)

lemma patched_load_graph_exact:
  assumes "patched_load_graph olg fl st = (r, st')"
  shows "queries st' = queries st \<and>
         (case olg fl (ext st) of
            (Inl e, x', d) \<Rightarrow> r = Inl e
          | (Inr oq, x', d) \<Rightarrow>
              r = Inr (Graph_obj oq True) \<and> ext st' = x' \<and> now st' = now st + int d)"
  using assms
  by (auto simp: patched_load_graph_def and_then_def call_external_def
      split: prod.splits sum.splits)



lemma run_actions_records:
  assumes "list_all instrumented gs" and "run_actions olg acts gs st = (r, st')"
  shows "queries st' =
           queries st @ expected_records olg acts (map own_query gs) (ext st) (now st)"
  using assms
proof (induction olg acts gs st arbitrary: r st' rule: run_actions.induct)
  case (1 olg gs st)
  then show ?case by simp
next
  case (2 olg fl acts gs st)
  obtain r1 st1 where load: "patched_load_graph olg fl st = (r1, st1)"
    by (cases "patched_load_graph olg fl st")
  note ex = patched_load_graph_exact [OF load]
  obtain a x' d where ext: "olg fl (ext st) = (a, x', d)" by (cases "olg fl (ext st)")
  show ?case
  proof (cases a)
    case (Inl e)
    with ex ext have "r1 = Inl e" "queries st1 = queries st" by simp_all
    moreover from this "2.prems"(2) load have "st' = st1" by simp
    ultimately show ?thesis using ext Inl by simp
  next
    case (Inr oq)
    with ex ext have r1: "r1 = Inr (Graph_obj oq True)" "ext st1 = x'" "now st1 = now st + int d"
      "queries st1 = queries st" by simp_all
    from "2.prems"(2) load r1(1) have rest: "run_actions olg acts (gs @ [Graph_obj oq True]) st1 = (r, st')"
      by simp
    from "2.prems"(1) have all: "list_all instrumented (gs @ [Graph_obj oq True])" by simp
    have "queries st' = queries st1 @
        expected_records olg acts (map own_query (gs @ [Graph_obj oq True])) (ext st1) (now st1)"
      by (rule "2.IH" [OF load [symmetric] r1(1) all rest])
    with r1 ext Inr show ?thesis by simp
  qed
next
  case (3 olg i q acts gs st)
  show ?case
  proof (cases "i < length gs")
    case False
    with "3.prems"(2) show ?thesis by simp
  next
    case True
    with "3.prems"(1) have inst: "instrumented (gs ! i)" by (simp add: list_all_length)
    let ?oq = "own_query (gs ! i)"
    obtain r1 st1 where call: "graph_query (gs ! i) q st = (r1, st1)"
      by (cases "graph_query (gs ! i) q st")
    with inst have cq: "capturing_query ?oq q st = (r1, st1)"
      by (simp add: graph_query_def)
    note ex = capturing_query_exact [OF cq]
    obtain a x1 d1 where first: "?oq q (ext st) = (a, x1, d1)" by (cases "?oq q (ext st)")
    show ?thesis
    proof (cases a)
      case (Inl e)
      with ex first have "r1 = Inl e" "queries st1 = queries st" by simp_all
      moreover from this "3.prems"(2) True call have "st' = st1" by simp
      ultimately show ?thesis using first Inl True by simp
    next
      case (Inr rows)
      note a = this
      obtain b x2 d2 where second: "?oq q x1 = (b, x2, d2)" by (cases "?oq q x1")
      from ex first a have rec: "queries st1 = queries st @
                [\<lparr>query = str_query q, execution_time = int d1, result_count = length rows,
                  timestamp = now st + int d1\<rparr>]" by simp
      show ?thesis
      proof (cases b)
        case (Inl e)
        with ex first a second have "r1 = Inl e" by simp
        with "3.prems"(2) True call have "st' = st1" by simp
        with rec first a second Inl True show ?thesis by simp
      next
        case (Inr rows')
        with ex first a second
        have r1: "r1 = Inr (Suc (length (results st)))" "ext st1 = x2"
          "now st1 = now st + int d1 + int d2" by simp_all
        from "3.prems"(2) True call r1(1) have rest: "run_actions olg acts gs st1 = (r, st')" by simp
        have "queries st' = queries st1 @
            expected_records olg acts (map own_query gs) (ext st1) (now st1)"
          by (rule "3.IH" [OF True call [symmetric] r1(1) "3.prems"(1) rest])
        with rec r1 first a second Inr True show ?thesis by simp
      qed
    qed
  qed
qed

text \<open>
  C7: over a run of the engine on instrumented graphs, the records appended to the log are
  the expected ones: one for each query, in the order the queries are issued, the
  \<open>n\<close>-th new record holding the text of the \<open>n\<close>-th query, the duration of its
  execution, the number of rows it produced and the clock reading at its capture. There
  is a record for every query when the run returns (an exception ends the run and the log
  with it), and the capture timestamps ascend.
\<close>

theorem capture_preserves_order:
  assumes "list_all instrumented gs" and "run_actions olg acts gs st = (r, st')"
  shows "\<exists>new. new = expected_records olg acts (map own_query gs) (ext st) (now st) \<and>
           queries st' = queries st @ new \<and>
           length new \<le> length (issued acts) \<and>
           (\<forall>n < length new. query (new ! n) = issued acts ! n) \<and>
           (if r = Inr () then length new = length (issued acts) else True) \<and>
           sorted (map timestamp new)"
proof -
  from run_actions_log [OF assms]
  obtain new where new: "queries st' = queries st @ new"
    "prefix (map query new) (issued acts)"
    "if r = Inr () then map query new = issued acts else True"
    "sorted (map timestamp new)"
    by blast
  from run_actions_records [OF assms] new(1)
  have exact: "new = expected_records olg acts (map own_query gs) (ext st) (now st)"
    by simp
  from new(2) obtain rest where rest: "issued acts = map query new @ rest"
    by (auto simp: prefix_def)
  have len: "length new \<le> length (issued acts)" using rest by simp
  have nth: "\<forall>n < length new. query (new ! n) = issued acts ! n"
    using rest by (simp add: nth_append)
  have full: "if r = Inr () then length new = length (issued acts) else True"
    using new(3) by (auto split: if_splits dest: arg_cong [where f = length])
  from exact new(1) len nth full new(4) show ?thesis by blast
qed


theorem capture_preserves_order_witness:
  "fst (run_actions (\<lambda>f x. (Inr demo_query, x, 1))
          [Load ''kg.nt'', Query 0 ''SELECT'', Load ''rules.nt'', Query 1 ''ASK'', Query 0 ''ASK''] [] demo_state) = Inr () \<and>
   queries (snd (run_actions (\<lambda>f x. (Inr demo_query, x, 1))
          [Load ''kg.nt'', Query 0 ''SELECT'', Load ''rules.nt'', Query 1 ''ASK'', Query 0 ''ASK''] [] demo_state))
     = [\<lparr>query = ''SELECT'', execution_time = 5, result_count = 2, timestamp = 6\<rparr>,
        \<lparr>query = ''ASK'', execution_time = 2, result_count = 1, timestamp = 14\<rparr>,
        \<lparr>query = ''ASK'', execution_time = 2, result_count = 1, timestamp = 18\<rparr>]"
proof -
  let ?run = "run_actions (\<lambda>f x. (Inr demo_query, x, 1))
          [Load ''kg.nt'', Query 0 ''SELECT'', Load ''rules.nt'', Query 1 ''ASK'', Query 0 ''ASK''] [] demo_state"
  have h1: "list_all instrumented ([] :: unit graph_obj list)" by simp
  have h2: "?run = (fst ?run, snd ?run)" by simp
  have ev: "fst ?run = Inr ()"
    by (simp add: patched_load_graph_def graph_query_def capturing_query_def and_then_def
        original_query_call_def call_external_def list_results_def demo_query_def
        demo_state_def str_query_def)
  from capture_preserves_order [OF h1 h2]
  have "queries (snd ?run) = queries demo_state @
          expected_records (\<lambda>f x. (Inr demo_query, x, 1))
            [Load ''kg.nt'', Query 0 ''SELECT'', Load ''rules.nt'', Query 1 ''ASK'', Query 0 ''ASK'']
            (map own_query ([] :: unit graph_obj list)) (ext demo_state) (now demo_state)"
    by blast
  then have "queries (snd ?run)
     = [\<lparr>query = ''SELECT'', execution_time = 5, result_count = 2, timestamp = 6\<rparr>,
        \<lparr>query = ''ASK'', execution_time = 2, result_count = 1, timestamp = 14\<rparr>,
        \<lparr>query = ''ASK'', execution_time = 2, result_count = 1, timestamp = 18\<rparr>]"
    by (simp add: demo_query_def demo_state_def str_query_def)
  with ev show ?thesis by simp
qed

subsection \<open>The run\<close>

lemmas run_defs =
  main_def capture_sparql_queries_def initial_state_def stage_def try_except_def try_block_def
  except_block_def finally_block_def assemble_def and_then_def call_initialize_def
  call_external_def call_process_rules_def patched_load_graph_def graph_query_def
  capturing_query_def original_query_call_def list_results_def json_dumps_output_def
  output_serializable_def print_doc_def row_get_def df_empty_def to_dict_records_def
  dict_of_def str_query_def str_exc_def Let_def build_output_def

lemmas demo_defs = demo_job_def demo_engine_def demo_table_def demo_graph_def demo_query_def

lemma graph_query_frame:
  "graph_query g q st = (r, st') \<Longrightarrow>
     stdout st' = stdout st \<and> removed st' = removed st \<and> invoked st' = invoked st"
  by (cases r)
     (auto simp: graph_query_def split: if_splits
       dest: capturing_query_Inl capturing_query_Inr original_query_call_Inl original_query_call_Inr)

lemma run_actions_frame:
  "run_actions olg acts gs st = (r, st') \<Longrightarrow>
     stdout st' = stdout st \<and> removed st' = removed st"
proof (induction olg acts gs st arbitrary: r st' rule: run_actions.induct)
  case (1 olg gs st)
  then show ?case by simp
next
  case (2 olg fl acts gs st)
  obtain r1 st1 where load: "patched_load_graph olg fl st = (r1, st1)"
    by (cases "patched_load_graph olg fl st")
  note fr = patched_load_graph_frame [OF load]
  show ?case
  proof (cases r1)
    case (Inl e)
    with 2 load fr show ?thesis by auto
  next
    case (Inr g)
    from 2 load Inr have rest: "run_actions olg acts (gs @ [g]) st1 = (r, st')" by simp
    from "2.IH" [OF load [symmetric] Inr rest] fr show ?thesis by simp
  qed
next
  case (3 olg i q acts gs st)
  show ?case
  proof (cases "i < length gs")
    case False
    with 3 show ?thesis by auto
  next
    case True
    obtain r1 st1 where call: "graph_query (gs ! i) q st = (r1, st1)"
      by (cases "graph_query (gs ! i) q st")
    note fr = graph_query_frame [OF call]
    show ?thesis
    proof (cases r1)
      case (Inl e)
      with 3 True call fr show ?thesis by auto
    next
      case (Inr ref)
      from 3 True call Inr have rest: "run_actions olg acts gs st1 = (r, st')" by simp
      from "3.IH" [OF True call [symmetric] Inr rest] fr show ?thesis by simp
    qed
  qed
qed

lemma and_then_cases:
  assumes "and_then m f st = (r, st')"
  obtains (raised) e where "m st = (Inl e, st')" "r = Inl e"
        | (continued) a st1 where "m st = (Inr a, st1)" "f a st1 = (r, st')"
  using assms by (auto simp: and_then_def split: prod.splits sum.splits)

lemma call_initialize_frame:
  "call_initialize eng p st = (r, st') \<Longrightarrow> stdout st' = stdout st \<and> removed st' = removed st"
  by (auto simp: call_initialize_def dest!: call_external_frame)

lemma call_process_rules_frame:
  "call_process_rules eng a b c d e f st = (r, st') \<Longrightarrow>
     stdout st' = stdout st \<and> removed st' = removed st"
  by (auto simp: call_process_rules_def split: prod.splits elim!: and_then_cases
      dest!: call_external_frame run_actions_frame)

lemma assemble_frame:
  "assemble job p st = (r, st') \<Longrightarrow> stdout st' = stdout st \<and> removed st' = removed st"
  unfolding assemble_def Let_def
  by (auto elim!: and_then_cases split: prod.splits
      dest!: call_external_frame call_initialize_frame call_process_rules_frame)

lemma assemble_output:
  "assemble job p st = (Inr out, st') \<Longrightarrow>
     \<exists>result_df. predictions_dataframe out = dataframe_to_json result_df \<and>
        collect_new_triples result_df = Inr (new_triples out) \<and>
        total_predictions (summary out) = length (new_triples out) \<and>
        predictions_added (statistics (graphs out)) = length (new_triples out) \<and>
        sparql_queries out = queries st' \<and>
        queries_executed (summary out) = length (queries st') \<and>
        success out"
  unfolding assemble_def Let_def
  by (auto elim!: and_then_cases split: prod.splits simp: build_output_def)


lemma try_block_cases:
  assumes "try_block job p st = (r, st')"
  shows "removed st' = removed st \<and>
         (case r of
            Inr u \<Rightarrow> (\<exists>out st1. assemble job p st = (Inr out, st1) \<and>
                       output_serializable out \<and> stdout st' = stdout st @ [Success_doc out])
          | Inl e \<Rightarrow> stdout st' = stdout st)"
proof -
  obtain a st1 where asm: "assemble job p st = (a, st1)" by (cases "assemble job p st")
  note fr = assemble_frame [OF asm]
  show ?thesis
  proof (cases a)
    case (Inl e)
    with assms asm fr show ?thesis by (auto simp: try_block_def and_then_def)
  next
    case (Inr out)
    with assms asm fr show ?thesis
      by (cases "output_serializable out")
         (auto simp: try_block_def and_then_def json_dumps_output_def print_doc_def)
  qed
qed

lemma try_except_one_document:
  assumes "try_except job p st = (t, st')"
  shows "removed st' = removed st \<and>
         ((t = Returned \<and>
           (\<exists>out st1. assemble job p st = (Inr out, st1) \<and> output_serializable out \<and>
              stdout st' = stdout st @ [Success_doc out])) \<or>
          (t = SystemExit 1 \<and>
           (\<exists>eo. stdout st' = stdout st @ [Failure_doc eo] \<and> \<not> success eo)))"
proof -
  obtain r st1 where tb: "try_block job p st = (r, st1)" by (cases "try_block job p st")
  from try_block_cases [OF tb] assms tb show ?thesis
    by (cases r) (auto simp: try_except_def except_block_def print_doc_def)
qed

lemma finally_block_effect:
  "files (ext (finally_block p st)) p = None \<and>
   stdout (finally_block p st) = stdout st \<and>
   invoked (finally_block p st) = invoked st \<and>
   removed (finally_block p st) =
     removed st @ (case files (ext st) p of None \<Rightarrow> [] | Some c \<Rightarrow> [p])"
  by (simp add: finally_block_def split: option.splits)

text \<open>
  How many documents a run prints: one, unless \<^verbatim>\<open>json.load\<close> or the creation of the
  temporary file raises, which happens before the \<^verbatim>\<open>try\<close> statement: then none.
  The exit status is zero exactly when the one document printed is the success envelope.
\<close>

lemma main_envelope_count:
  "length (stdout (snd (main job))) =
     (case json_load (stdin job) of
        Inl e \<Rightarrow> 0
      | Inr input_data \<Rightarrow> (case named_temporary_file job of Inl e \<Rightarrow> 0 | Inr p \<Rightarrow> 1)) \<and>
   (exit_status (fst (main job)) = 0 \<longleftrightarrow> (\<exists>out. stdout (snd (main job)) = [Success_doc out]))"
proof (cases "json_load (stdin job)")
  case (Inl e)
  then show ?thesis
    by (simp add: main_def capture_sparql_queries_def initial_state_def)
next
  case (Inr input_data)
  note parsed = this
  show ?thesis
  proof (cases "named_temporary_file job")
    case (Inl e)
    with parsed show ?thesis
      by (simp add: main_def capture_sparql_queries_def initial_state_def)
  next
    case (Inr p)
    let ?st = "stage p input_data (capture_sparql_queries (initial_state job))"
    obtain t st' where te: "try_except job p ?st = (t, st')"
      by (cases "try_except job p ?st")
    have empty: "stdout ?st = []"
      by (simp add: stage_def capture_sparql_queries_def initial_state_def)
    from parsed Inr te have m: "main job = (t, finally_block p st')"
      by (simp add: main_def)
    from try_except_one_document [OF te] empty
    have "(t = Returned \<and> (\<exists>out. stdout st' = [Success_doc out])) \<or>
          (t = SystemExit 1 \<and> (\<exists>eo. stdout st' = [Failure_doc eo]))"
      by auto
    with parsed Inr m show ?thesis
      by (auto simp: finally_block_effect)
  qed
qed

text \<open>
  C3, on the code: with a malformed document on the input stream, \<^verbatim>\<open>json.load\<close> raises
  outside the \<^verbatim>\<open>try\<close> statement. No engine entry point is called, but nothing is
  printed either: the exception reaches the top level and the process exits with status 1.
\<close>

theorem main_malformed_input:
  "fst (main (job\<lparr>stdin := Malformed msg\<rparr>)) = Uncaught (PyExc ''JSONDecodeError'' msg) \<and>
   exit_status (fst (main (job\<lparr>stdin := Malformed msg\<rparr>))) = 1 \<and>
   stdout (snd (main (job\<lparr>stdin := Malformed msg\<rparr>))) = [] \<and>
   invoked (snd (main (job\<lparr>stdin := Malformed msg\<rparr>))) = []"
  by (simp add: main_def capture_sparql_queries_def initial_state_def)

text \<open>
  C2, on the code: the input \<^verbatim>\<open>{\<close> is not a JSON document; the run prints no envelope
  at all and exits with status 1.
\<close>

theorem main_prints_nothing_on_truncated_input:
  "length (stdout (snd (main ((demo_job (VStr ''b''))
       \<lparr>stdin := Malformed ''Expecting property name enclosed in double quotes''\<rparr>)))) = 0 \<and>
   exit_status (fst (main ((demo_job (VStr ''b''))
       \<lparr>stdin := Malformed ''Expecting property name enclosed in double quotes''\<rparr>))) = 1"
  by (simp add: main_def capture_sparql_queries_def initial_state_def)

text \<open>
  C4: once the document is staged in the temporary file, the file does not exist when the
  process ends, whatever happened in between; \<^verbatim>\<open>os.remove\<close> is called at most once,
  and exactly once when the file is still there at the end of the \<^verbatim>\<open>try\<close> statement.
\<close>

theorem staged_file_removed:
  assumes "json_load (stdin job) = Inr input_data"
      and "named_temporary_file job = Inr temp"
  shows "files (ext (stage temp input_data (capture_sparql_queries (initial_state job)))) temp
           = Some input_data \<and>
         files (ext (snd (main job))) temp = None \<and>
         removed (snd (main job)) =
           (case files (ext (snd (try_except job temp
                   (stage temp input_data (capture_sparql_queries (initial_state job)))))) temp of
              None \<Rightarrow> [] | Some c \<Rightarrow> [temp]) \<and>
         length (removed (snd (main job))) \<le> 1"
proof -
  let ?st = "stage temp input_data (capture_sparql_queries (initial_state job))"
  obtain t st' where te: "try_except job temp ?st = (t, st')"
    by (cases "try_except job temp ?st")
  have none: "removed ?st = []"
    by (simp add: stage_def capture_sparql_queries_def initial_state_def)
  from assms te have m: "main job = (t, finally_block temp st')"
    by (simp add: main_def)
  from try_except_one_document [OF te] none have r: "removed st' = []" by simp
  have staged: "files (ext ?st) temp = Some input_data" by (simp add: stage_def)
  from m te r staged show ?thesis
    by (simp add: finally_block_effect split: option.splits)
qed

theorem staged_file_removed_witness:
  "files (ext (snd (main (demo_job (VStr ''b''))))) ''/tmp/tmpabc.json'' = None \<and>
   removed (snd (main (demo_job (VStr ''b'')))) = [''/tmp/tmpabc.json''] \<and>
   files (ext (snd (main (demo_job (VObj ''numpy.int64''))))) ''/tmp/tmpabc.json'' = None \<and>
   removed (snd (main (demo_job (VObj ''numpy.int64'')))) = [''/tmp/tmpabc.json'']"
proof -
  have good: "json_load (stdin (demo_job (VStr ''b''))) = Inr ''{}''"
    "named_temporary_file (demo_job (VStr ''b'')) = Inr ''/tmp/tmpabc.json''"
    by (simp_all add: demo_job_def)
  have bad: "json_load (stdin (demo_job (VObj ''numpy.int64''))) = Inr ''{}''"
    "named_temporary_file (demo_job (VObj ''numpy.int64'')) = Inr ''/tmp/tmpabc.json''"
    by (simp_all add: demo_job_def)
  have kept_good: "files (ext (snd (try_except (demo_job (VStr ''b'')) ''/tmp/tmpabc.json''
      (stage ''/tmp/tmpabc.json'' ''{}''
         (capture_sparql_queries (initial_state (demo_job (VStr ''b''))))))))
      ''/tmp/tmpabc.json'' = Some ''{}''"
    by (simp add: run_defs demo_defs)
  have kept_bad: "files (ext (snd (try_except (demo_job (VObj ''numpy.int64'')) ''/tmp/tmpabc.json''
      (stage ''/tmp/tmpabc.json'' ''{}''
         (capture_sparql_queries (initial_state (demo_job (VObj ''numpy.int64''))))))))
      ''/tmp/tmpabc.json'' = Some ''{}''"
    by (simp add: run_defs demo_defs)
  from staged_file_removed [OF good] staged_file_removed [OF bad] kept_good kept_bad
  show ?thesis by simp
qed

text \<open>
  C10: when the run reaches \<^verbatim>\<open>json.dumps(output)\<close> with an envelope that holds a
  value \<^verbatim>\<open>json\<close> cannot encode, nothing of the success envelope is printed; the
  \<^verbatim>\<open>TypeError\<close> is caught, one failure envelope is printed and the exit status is 1.
\<close>

theorem unserializable_output_gives_failure:
  assumes "json_load (stdin job) = Inr input_data"
      and "named_temporary_file job = Inr temp"
      and "assemble job temp (stage temp input_data (capture_sparql_queries (initial_state job)))
             = (Inr out, st')"
      and "\<not> output_serializable out"
  shows "fst (main job) = SystemExit 1 \<and> exit_status (fst (main job)) = 1 \<and>
         stdout (snd (main job)) =
           [Failure_doc \<lparr>success = False, error = ''Object is not JSON serializable'',
              traceback = format_exc (PyExc ''TypeError'' ''Object is not JSON serializable''),
              err_timestamp = now st'\<rparr>]"
proof -
  let ?st = "stage temp input_data (capture_sparql_queries (initial_state job))"
  have empty: "stdout ?st = []"
    by (simp add: stage_def capture_sparql_queries_def initial_state_def)
  from assemble_frame [OF assms(3)] empty have out: "stdout st' = []" by simp
  from assms(3,4) have tb: "try_block job temp ?st =
      (Inl (PyExc ''TypeError'' ''Object is not JSON serializable''), st')"
    by (simp add: try_block_def and_then_def json_dumps_output_def)
  from assms(1,2) tb out show ?thesis
    by (simp add: main_def try_except_def except_block_def print_doc_def finally_block_effect
        str_exc_def)
qed


theorem unserializable_output_gives_failure_witness:
  "fst (main (demo_job (VObj ''numpy.int64''))) = SystemExit 1 \<and>
   (\<exists>eo. stdout (snd (main (demo_job (VObj ''numpy.int64'')))) = [Failure_doc eo] \<and>
         error eo = ''Object is not JSON serializable'' \<and> success eo = False)"
proof -
  have bad: "json_load (stdin (demo_job (VObj ''numpy.int64''))) = Inr ''{}''"
    "named_temporary_file (demo_job (VObj ''numpy.int64'')) = Inr ''/tmp/tmpabc.json''"
    by (simp_all add: demo_job_def)
  have "\<exists>out st'. assemble (demo_job (VObj ''numpy.int64'')) ''/tmp/tmpabc.json''
           (stage ''/tmp/tmpabc.json'' ''{}''
              (capture_sparql_queries (initial_state (demo_job (VObj ''numpy.int64'')))))
           = (Inr out, st') \<and> \<not> output_serializable out"
    by (simp add: run_defs demo_defs)
  then obtain out st' where asm: "assemble (demo_job (VObj ''numpy.int64'')) ''/tmp/tmpabc.json''
           (stage ''/tmp/tmpabc.json'' ''{}''
              (capture_sparql_queries (initial_state (demo_job (VObj ''numpy.int64'')))))
           = (Inr out, st')" and ns: "\<not> output_serializable out"
    by blast
  from unserializable_output_gives_failure [OF bad asm ns] show ?thesis by simp
qed

lemma call_process_rules_result:
  "call_process_rules eng a b c d e f st = (Inr (result_df, g), st') \<Longrightarrow>
     \<exists>x. fst (snd (process_rules eng a b c d e f) x) = Inr (result_df, g)"
  by (auto simp: call_process_rules_def split: prod.splits elim!: and_then_cases
      dest!: call_external_frame)

lemma assemble_table:
  "assemble job p st = (Inr out, st') \<Longrightarrow>
     \<exists>result_df g a b c d e f x.
        fst (snd (process_rules (engine job) a b c d e f) x) = Inr (result_df, g) \<and>
        predictions_dataframe out = dataframe_to_json result_df \<and>
        collect_new_triples result_df = Inr (new_triples out) \<and>
        total_predictions (summary out) = length (new_triples out)"
  unfolding assemble_def Let_def
  apply (auto elim!: and_then_cases split: prod.splits simp: build_output_def)
  apply (drule call_process_rules_result)
  apply blast
  done

lemma iterrows_loop_result:
  "iterrows_loop cols rows acc = Inr nts \<Longrightarrow>
     \<exists>new. nts = acc @ new \<and> length new = length rows \<and>
       (\<forall>i < length rows.
          row_get cols (rows ! i) ''subject'' = Inr (subject (new ! i)) \<and>
          row_get cols (rows ! i) ''predicate'' = Inr (predicate (new ! i)) \<and>
          row_get cols (rows ! i) ''object'' = Inr (object (new ! i)))"
proof (induction rows arbitrary: acc)
  case Nil
  then show ?case by simp
next
  case (Cons r rest)
  from Cons.prems obtain s p ob where
    got: "row_get cols r ''subject'' = Inr s" "row_get cols r ''predicate'' = Inr p"
         "row_get cols r ''object'' = Inr ob"
    and rec: "iterrows_loop cols rest (acc @ [\<lparr>subject = s, predicate = p, object = ob\<rparr>]) = Inr nts"
    by (auto split: sum.splits)
  from Cons.IH [OF rec] obtain new where new:
    "nts = (acc @ [\<lparr>subject = s, predicate = p, object = ob\<rparr>]) @ new"
    "length new = length rest"
    "\<forall>i < length rest.
          row_get cols (rest ! i) ''subject'' = Inr (subject (new ! i)) \<and>
          row_get cols (rest ! i) ''predicate'' = Inr (predicate (new ! i)) \<and>
          row_get cols (rest ! i) ''object'' = Inr (object (new ! i))"
    by blast
  show ?case
  proof (intro exI [of _ "\<lparr>subject = s, predicate = p, object = ob\<rparr> # new"] conjI allI impI)
    fix i assume "i < length (r # rest)"
    then show "row_get cols ((r # rest) ! i) ''subject''
                 = Inr (subject ((\<lparr>subject = s, predicate = p, object = ob\<rparr> # new) ! i))"
      and "row_get cols ((r # rest) ! i) ''predicate''
                 = Inr (predicate ((\<lparr>subject = s, predicate = p, object = ob\<rparr> # new) ! i))"
      and "row_get cols ((r # rest) ! i) ''object''
                 = Inr (object ((\<lparr>subject = s, predicate = p, object = ob\<rparr> # new) ! i))"
      using got new(3) by (cases i; simp)+
  qed (use new in simp_all)
qed

lemma row_get_single:
  "row_get cols r k = Inr v \<Longrightarrow> json_serializable v \<Longrightarrow> cells_under cols r k = [v]"
  by (auto simp: row_get_def cells_under_def split: list.splits)


lemma main_success_inversion:
  assumes "Success_doc out \<in> set (stdout (snd (main job)))"
  shows "output_serializable out \<and> (\<exists>p st st1. assemble job p st = (Inr out, st1))"
proof (cases "json_load (stdin job)")
  case (Inl e)
  with assms show ?thesis
    by (simp add: main_def capture_sparql_queries_def initial_state_def)
next
  case (Inr input_data)
  note parsed = this
  show ?thesis
  proof (cases "named_temporary_file job")
    case (Inl e)
    with assms parsed show ?thesis
      by (simp add: main_def capture_sparql_queries_def initial_state_def)
  next
    case (Inr p)
    let ?st = "stage p input_data (capture_sparql_queries (initial_state job))"
    obtain t st' where te: "try_except job p ?st = (t, st')"
      by (cases "try_except job p ?st")
    have empty: "stdout ?st = []"
      by (simp add: stage_def capture_sparql_queries_def initial_state_def)
    from parsed Inr te have m: "main job = (t, finally_block p st')"
      by (simp add: main_def)
    with assms have mem: "Success_doc out \<in> set (stdout st')"
      by (simp add: finally_block_effect)
    from try_except_one_document [OF te] empty mem show ?thesis
      by (elim conjE disjE exE) (simp_all, blast)
  qed
qed

text \<open>
  C8: in a run that prints the success envelope, \<open>new_triples\<close> comes from the table the
  engine returned: \<open>total_predictions\<close> is its length; when the table has the columns
  \<open>subject\<close>, \<open>predicate\<close> and \<open>object\<close> there is one entry per row; and the
  \<open>i\<close>-th entry holds the cells of the \<open>i\<close>-th row under these three labels (each label
  names one column there), whatever other columns the table has.
\<close>

theorem new_triples_match_table:
  assumes "Success_doc out \<in> set (stdout (snd (main job)))"
  shows "\<exists>result_df g a b c d e f x.
           fst (snd (process_rules (engine job) a b c d e f) x) = Inr (result_df, g) \<and>
           predictions_dataframe out = dataframe_to_json result_df \<and>
           total_predictions (summary out) = length (new_triples out) \<and>
           (case result_df of
              None \<Rightarrow> new_triples out = []
            | Some df \<Rightarrow>
                (set [''subject'', ''predicate'', ''object''] \<subseteq> set (df_columns df)
                   \<longrightarrow> length (new_triples out) = length (df_rows df)) \<and>
                (\<forall>i < length (new_triples out).
                   i < length (df_rows df) \<and>
                   cells_under (df_columns df) (df_rows df ! i) ''subject''
                     = [subject (new_triples out ! i)] \<and>
                   cells_under (df_columns df) (df_rows df ! i) ''predicate''
                     = [predicate (new_triples out ! i)] \<and>
                   cells_under (df_columns df) (df_rows df ! i) ''object''
                     = [object (new_triples out ! i)]))"
proof -
  from main_success_inversion [OF assms]
  obtain p st st1 where ser: "output_serializable out"
    and asm: "assemble job p st = (Inr out, st1)" by blast
  from assemble_table [OF asm]
  obtain result_df g a b c d e f x where
    ret: "fst (snd (process_rules (engine job) a b c d e f) x) = Inr (result_df, g)"
    and tab: "predictions_dataframe out = dataframe_to_json result_df"
    and col: "collect_new_triples result_df = Inr (new_triples out)"
    and tot: "total_predictions (summary out) = length (new_triples out)"
    by blast
  have rows: "case result_df of
              None \<Rightarrow> new_triples out = []
            | Some df \<Rightarrow>
                (set [''subject'', ''predicate'', ''object''] \<subseteq> set (df_columns df)
                   \<longrightarrow> length (new_triples out) = length (df_rows df)) \<and>
                (\<forall>i < length (new_triples out).
                   i < length (df_rows df) \<and>
                   cells_under (df_columns df) (df_rows df ! i) ''subject''
                     = [subject (new_triples out ! i)] \<and>
                   cells_under (df_columns df) (df_rows df ! i) ''predicate''
                     = [predicate (new_triples out ! i)] \<and>
                   cells_under (df_columns df) (df_rows df ! i) ''object''
                     = [object (new_triples out ! i)])"
  proof (cases result_df)
    case None
    with col show ?thesis by simp
  next
    case (Some df)
    show ?thesis
    proof (cases "df_empty df")
      case True
      with col Some have "new_triples out = []" by simp
      with Some True show ?thesis by (auto simp: df_empty_def)
    next
      case False
      with col Some have loop: "iterrows_loop (df_columns df) (df_rows df) [] = Inr (new_triples out)"
        by simp
      from iterrows_loop_result [OF loop]
      have len: "length (new_triples out) = length (df_rows df)"
        and got: "\<forall>i < length (df_rows df).
          row_get (df_columns df) (df_rows df ! i) ''subject'' = Inr (subject (new_triples out ! i)) \<and>
          row_get (df_columns df) (df_rows df ! i) ''predicate'' = Inr (predicate (new_triples out ! i)) \<and>
          row_get (df_columns df) (df_rows df ! i) ''object'' = Inr (object (new_triples out ! i))"
        by auto
      from ser have ok: "\<forall>i < length (new_triples out).
          json_serializable (subject (new_triples out ! i)) \<and>
          json_serializable (predicate (new_triples out ! i)) \<and>
          json_serializable (object (new_triples out ! i))"
        by (simp add: output_serializable_def list_all_length)
      from len got ok Some show ?thesis
        by (auto intro!: row_get_single)
    qed
  qed
  from ret tab tot rows show ?thesis by blast
qed

theorem new_triples_match_table_witness:
  "\<exists>out. stdout (snd (main (demo_job (VStr ''b'')))) = [Success_doc out] \<and>
     length (new_triples out) = 2 \<and> total_predictions (summary out) = 2 \<and>
     new_triples out ! 0 = \<lparr>subject = VStr ''a'', predicate = VStr ''knows'', object = VStr ''b''\<rparr> \<and>
     new_triples out ! 1 = \<lparr>subject = VStr ''b'', predicate = VStr ''knows'', object = VStr ''c''\<rparr>"
proof -
  obtain out where out: "stdout (snd (main (demo_job (VStr ''b'')))) = [Success_doc out]"
  proof -
    have "\<exists>out. stdout (snd (main (demo_job (VStr ''b'')))) = [Success_doc out]"
      by (simp add: run_defs demo_defs)
    then show ?thesis using that by blast
  qed
  then have mem: "Success_doc out \<in> set (stdout (snd (main (demo_job (VStr ''b'')))))"
    by simp
  from new_triples_match_table [OF mem]
  obtain result_df g a b c d e f x where
    ret: "fst (snd (process_rules (engine (demo_job (VStr ''b''))) a b c d e f) x) = Inr (result_df, g)"
    and tot: "total_predictions (summary out) = length (new_triples out)"
    and rows: "case result_df of
              None \<Rightarrow> new_triples out = []
            | Some df \<Rightarrow>
                (set [''subject'', ''predicate'', ''object''] \<subseteq> set (df_columns df)
                   \<longrightarrow> length (new_triples out) = length (df_rows df)) \<and>
                (\<forall>i < length (new_triples out).
                   i < length (df_rows df) \<and>
                   cells_under (df_columns df) (df_rows df ! i) ''subject''
                     = [subject (new_triples out ! i)] \<and>
                   cells_under (df_columns df) (df_rows df ! i) ''predicate''
                     = [predicate (new_triples out ! i)] \<and>
                   cells_under (df_columns df) (df_rows df ! i) ''object''
                     = [object (new_triples out ! i)])"
    by blast
  from ret have df: "result_df = Some (demo_table (VStr ''b''))"
    by (simp add: demo_job_def demo_engine_def)
  from rows [unfolded df] have len: "length (new_triples out) = 2"
    by (simp add: demo_table_def)
  from rows [unfolded df] len
  have cells: "\<forall>i < 2.
       cells_under (df_columns (demo_table (VStr ''b''))) (df_rows (demo_table (VStr ''b'')) ! i) ''subject''
                     = [subject (new_triples out ! i)] \<and>
       cells_under (df_columns (demo_table (VStr ''b''))) (df_rows (demo_table (VStr ''b'')) ! i) ''predicate''
                     = [predicate (new_triples out ! i)] \<and>
       cells_under (df_columns (demo_table (VStr ''b''))) (df_rows (demo_table (VStr ''b'')) ! i) ''object''
                     = [object (new_triples out ! i)]"
    by simp
  from cells [rule_format, of 0] cells [rule_format, of 1]
  have "new_triples out ! 0 = \<lparr>subject = VStr ''a'', predicate = VStr ''knows'', object = VStr ''b''\<rparr>"
    "new_triples out ! 1 = \<lparr>subject = VStr ''b'', predicate = VStr ''knows'', object = VStr ''c''\<rparr>"
    by (simp_all add: cells_under_def demo_table_def)
  with out len tot show ?thesis by simp
qed

end
